theory Spec2Isabelle
  imports Complex_Main
begin

section \<open>Strings, errors and the random source\<close>

text \<open>
  A Python \<open>str\<close> is a sequence of Unicode code points, and the program iterates and
  indexes its strings by code point (\<open>last_name[0]\<close>, \<open>for char in given_name\<close>).
  Most of its literals are Hangul or Hanja, so a string is modelled as the list of its
  code points. \<open>ascii\<close> reads an ASCII literal as such a list.
\<close>

type_synonym ustr = "nat list"

definition ascii :: "string \<Rightarrow> ustr" where
  "ascii s = map of_char s"

text \<open>The exceptions the generation functions can raise.\<close>

datatype error = IndexError | TypeError | ValueError | KeyError

text \<open>
  \<open>str.upper()\<close> maps every code point to its uppercase expansion and concatenates.
  On ASCII that is \<open>a..z \<mapsto> A..Z\<close>; beyond ASCII the mapping is the Unicode case table
  of the interpreter, which is taken as the parameter \<open>uc\<close>.
\<close>

definition upper_char :: "(nat \<Rightarrow> ustr) \<Rightarrow> nat \<Rightarrow> ustr" where
  "upper_char uc c =
     (if c < 128 then [if 97 \<le> c \<and> c \<le> 122 then c - 32 else c] else uc c)"

definition upper :: "(nat \<Rightarrow> ustr) \<Rightarrow> ustr \<Rightarrow> ustr" where
  "upper uc s = concat (map (upper_char uc) s)"

text \<open>
  The module \<open>random\<close> is modelled as a source of draws that every call consumes from:
  \<open>picks\<close> feeds the integer draws behind \<open>random.choice\<close> and \<open>random.sample\<close>,
  \<open>reals\<close> feeds the values of \<open>random.random()\<close> behind \<open>random.uniform\<close>. An exhausted
  list goes on with zeros.
\<close>

record rng =
  picks :: "nat list"
  reals :: "real list"

definition randbelow :: "nat \<Rightarrow> rng \<Rightarrow> nat \<times> rng" where
  "randbelow n g =
     (case picks g of
        [] \<Rightarrow> (0, g)
      | d # ds \<Rightarrow> (d mod n, g\<lparr>picks := ds\<rparr>))"

text \<open>\<open>random.choice(seq)\<close>: IndexError on an empty sequence, else the element at a drawn index.\<close>

definition choice :: "'a list \<Rightarrow> rng \<Rightarrow> error + ('a \<times> rng)" where
  "choice xs g =
     (if xs = [] then Inl IndexError
      else (case randbelow (length xs) g of (i, g') \<Rightarrow> Inr (xs ! i, g')))"

text \<open>
  A Python number is an int or a float, kept here by its value. \<open>+\<close> is exact on two
  ints and rounds to the nearest double as soon as a float takes part, \<open>sum\<close> may
  compensate its rounding errors, and \<open>random.uniform(a, b)\<close> computes
  \<open>a + (b - a) * random()\<close> in floating point. The three operations belong to the
  interpreter and are taken as parameters; \<open><=\<close> compares two numbers by value, exactly.
  \<open>uniform\<close> applies the interpreter's operation to the next value of \<open>random()\<close>.
\<close>

definition uniform ::
  "(real \<Rightarrow> real \<Rightarrow> real \<Rightarrow> real) \<Rightarrow> real \<Rightarrow> real \<Rightarrow> rng \<Rightarrow> real \<times> rng"
where
  "uniform f a b g =
     (case reals g of
        [] \<Rightarrow> (f a b 0, g)
      | u # us \<Rightarrow> (f a b u, g\<lparr>reals := us\<rparr>))"

text \<open>
  \<open>random.sample(population, k)\<close>: ValueError when \<open>k\<close> exceeds the population,
  else the elements at \<open>k\<close> distinct drawn positions, in the order drawn.
\<close>

fun sample_from :: "'a list \<Rightarrow> nat \<Rightarrow> rng \<Rightarrow> 'a list \<times> rng" where
  "sample_from pool 0 g = ([], g)"
| "sample_from pool (Suc k) g =
     (case randbelow (length pool) g of
        (i, g') \<Rightarrow>
          (case sample_from (take i pool @ drop (Suc i) pool) k g' of
             (xs, g'') \<Rightarrow> (pool ! i # xs, g'')))"

definition sample :: "'a list \<Rightarrow> nat \<Rightarrow> rng \<Rightarrow> error + ('a list \<times> rng)" where
  "sample population k g =
     (if length population < k then Inl ValueError else Inr (sample_from population k g))"

text \<open>\<open>d.get(k, default)\<close> on a dict literal, and \<open>sep.join(parts)\<close>.\<close>

definition dict_get :: "('k \<times> 'v) list \<Rightarrow> 'k \<Rightarrow> 'v \<Rightarrow> 'v" where
  "dict_get d k dflt = (case map_of d k of Some v \<Rightarrow> v | None \<Rightarrow> dflt)"

fun join :: "ustr \<Rightarrow> ustr list \<Rightarrow> ustr" where
  "join sep [] = []"
| "join sep [p] = p"
| "join sep (p # q # ps) = p @ sep @ join sep (q # ps)"

section \<open>Reference tables\<close>

text \<open>
  An entry of \<open>surnames.json\<close>: \<open>korean\<close> and \<open>hanja\<close> are read with \<open>[...]\<close>,
  \<open>weight\<close> with \<open>.get("weight", 1)\<close>, so it may be absent.
\<close>

record surname =
  korean :: ustr
  hanja :: ustr
  weight :: "real option"

text \<open>
  An entry of \<open>syllables.json\<close>: \<open>syllable\<close>, \<open>hanja\<close> and \<open>meaning\<close> are read with
  \<open>[...]\<close> and are fields of every entry of the documented schema; \<open>tag\<close> is read with
  \<open>.get('tag')\<close> and \<open>common\<close> with \<open>.get('common', 0) == 1\<close> (JSON \<open>true\<close> compares
  equal to 1).
\<close>

record syllable_entry =
  syllable :: ustr
  syl_hanja :: ustr
  meaning :: ustr
  tag :: "ustr option"
  common :: "int option"

text \<open>
  The three tables are loaded from data files when the module is imported; together with
  the interpreter's case table, its arithmetic on numbers (\<open>+\<close>, \<open>sum\<close> and the
  floating-point expression of \<open>random.uniform\<close>) and the current date they form the
  environment of the generation functions. \<open>load_json_data\<close> yields an empty table when a file cannot be read.
  \<open>FORTUNES_DATA\<close> is a dict whose keys are listed (\<open>list(FORTUNES_DATA.keys())\<close>), so it is
  kept as the list of its items in insertion order.
\<close>

record env =
  unicode_upper :: "nat \<Rightarrow> ustr"
  num_add :: "real \<Rightarrow> real \<Rightarrow> real"
  num_sum :: "real list \<Rightarrow> real"
  num_uniform :: "real \<Rightarrow> real \<Rightarrow> real \<Rightarrow> real"
  SURNAMES_DATA :: "ustr \<rightharpoonup> surname list"
  SYLLABLES_DATA :: "syllable_entry list"
  FORTUNES_DATA :: "(ustr \<times> ustr list) list"
  today :: ustr

definition DEFAULT :: ustr where
  "DEFAULT = ascii ''DEFAULT''"

definition SMITH :: ustr where
  "SMITH = ascii ''SMITH''"

definition lee :: surname where
  "lee = \<lparr>korean = [51060], hanja = [26446], weight = None\<rparr>"

definition song :: surname where
  "song = \<lparr>korean = [49569], hanja = [23435], weight = None\<rparr>"

section \<open>Surname resolution\<close>

text \<open>
  The loop over \<open>zip(surname_options, weights)\<close>, with \<open>cumulative += weight\<close> computed by
  the interpreter's addition \<open>add\<close>; None when it ends without returning.
\<close>

fun surname_walk ::
  "(real \<Rightarrow> real \<Rightarrow> real) \<Rightarrow> (surname \<times> real) list \<Rightarrow> real \<Rightarrow> real \<Rightarrow> surname option"
where
  "surname_walk add [] cumulative rand = None"
| "surname_walk add ((s, w) # rest) cumulative rand =
     (let cumulative = add cumulative w
      in if rand \<le> cumulative then Some s else surname_walk add rest cumulative rand)"

definition weight_of :: "surname \<Rightarrow> real" where
  "weight_of s = (case weight s of Some w \<Rightarrow> w | None \<Rightarrow> 1)"

definition get_korean_surname :: "env \<Rightarrow> ustr \<Rightarrow> rng \<Rightarrow> error + (surname \<times> rng)" where
  "get_korean_surname E last_name g =
     (if last_name = [] then
        choice (case SURNAMES_DATA E DEFAULT of Some xs \<Rightarrow> xs | None \<Rightarrow> [lee]) g
      else
        let initial = upper (unicode_upper E) [hd last_name] in
        if upper (unicode_upper E) last_name = SMITH then Inr (song, g)
        else
          (case (case SURNAMES_DATA E initial of
                   Some xs \<Rightarrow> Some xs
                 | None \<Rightarrow> SURNAMES_DATA E DEFAULT) of
             None \<Rightarrow> Inl TypeError
           | Some surname_options \<Rightarrow>
               let weights = map weight_of surname_options;
                   total_weight = num_sum E weights
               in (case uniform (num_uniform E) 0 total_weight g of
                     (rand, g') \<Rightarrow>
                       (case surname_walk (num_add E) (zip surname_options weights) 0 rand of
                          Some s \<Rightarrow> Inr (s, g')
                        | None \<Rightarrow>
                            (case surname_options of
                               [] \<Rightarrow> Inl IndexError
                             | s # _ \<Rightarrow> Inr (s, g'))))))"

section \<open>Results\<close>

record family =
  fam_korean :: ustr
  fam_hanja :: ustr
  fam_meaning :: ustr

record given =
  g_syllable :: ustr
  g_hanja :: ustr
  g_meaning :: ustr

text \<open>A name candidate; \<open>hanja_forms\<close> is the entry \<open>"hanja"\<close> of the source's dict.\<close>

record candidate =
  name_kr :: ustr
  name_en :: ustr
  hanja_forms :: "ustr list"
  family_name :: family
  given_name :: "given list"
  summary :: ustr

record fortune =
  date :: ustr
  cosmic_cookie :: ustr
  lucky_snack :: ustr
  deeper_look :: ustr

text \<open>The caller's \<open>options\<close> dict, read with \<open>.get('tags', ...)\<close> and \<open>.get('gender', ...)\<close>.\<close>

record options =
  tags :: "ustr list option"
  gender :: "ustr option"

section \<open>Romanization, meanings and summaries\<close>

definition romanization_map :: "(ustr \<times> ustr) list" where
  "romanization_map =
     [
      ([49569], ascii ''Song''), ([51060], ascii ''Lee''), ([44608], ascii ''Kim''),
      ([48149], ascii ''Park''), ([52572], ascii ''Choi''), ([51221], ascii ''Jung''),
      ([54620], ascii ''Han''), ([49436], ascii ''Seo''), ([44053], ascii ''Kang''),
      ([51312], ascii ''Cho''), ([50980], ascii ''Yoon''), ([51109], ascii ''Jang''),
      ([51076], ascii ''Lim''), ([54861], ascii ''Hong''), ([49888], ascii ''Shin''),
      ([50896], ascii ''Won''), ([48177], ascii ''Baek''), ([47928], ascii ''Moon''),
      ([48124], ascii ''Min''), ([50577], ascii ''Yang''), ([50976], ascii ''Yoo''),
      ([45224], ascii ''Nam''), ([45432], ascii ''Noh''), ([44256], ascii ''Ko''),
      ([44396], ascii ''Koo''), ([47448], ascii ''Ryu''), ([46972], ascii ''Ra''),
      ([50504], ascii ''Ahn''), ([50724], ascii ''Oh''), ([53468], ascii ''Tae''),
      ([46020], ascii ''Do''), ([52380], ascii ''Cheon''), ([48176], ascii ''Bae''),
      ([48320], ascii ''Byun''), ([54889], ascii ''Hwang''), ([51204], ascii ''Jeon'')
     ]"

definition given_romanization :: "(ustr \<times> ustr) list" where
  "given_romanization =
     [
      ([50900], ascii ''Wil''), ([49440], ascii ''Seon''), ([47749], ascii ''Myung''),
      ([50689], ascii ''Young''), ([51648], ascii ''Ji''), ([54788], ascii ''Hyun''),
      ([50857], ascii ''Yong''), ([51456], ascii ''Jun''), ([50980], ascii ''Yoon''),
      ([54616], ascii ''Ha''), ([50976], ascii ''Yu''), ([50672], ascii ''Yeon''),
      ([50864], ascii ''Woo''), ([51008], ascii ''Eun''), ([48124], ascii ''Min''),
      ([51221], ascii ''Jung''), ([49457], ascii ''Sung''), ([50896], ascii ''Won''),
      ([49437], ascii ''Seok''), ([49436], ascii ''Seo''), ([55064], ascii ''Hwi''),
      ([54785], ascii ''Hyuk''), ([52292], ascii ''Chae''), ([49548], ascii ''So''),
      ([50696], ascii ''Ye''), ([44508], ascii ''Kyu''), ([46020], ascii ''Do''),
      ([44221], ascii ''Kyung''), ([44053], ascii ''Kang''), ([44148], ascii ''Gun''),
      ([54840], ascii ''Ho''), ([47548], ascii ''Rim''), ([54644], ascii ''Hae''),
      ([49556], ascii ''Sol'')
     ]"

definition romanize_korean_name :: "ustr \<Rightarrow> ustr \<Rightarrow> ustr" where
  "romanize_korean_name surname_kr given_name_kr =
     (let surname_roman = dict_get romanization_map surname_kr surname_kr;
          given_parts = map (\<lambda>char. dict_get given_romanization [char] [char]) given_name_kr
      in surname_roman @ ascii '' '' @ join (ascii ''-'') given_parts)"

definition meanings :: "(ustr \<times> ustr) list" where
  "meanings =
     [
      ([23435], ascii ''Pine tree - symbol of longevity and resilience''),
      ([26446], ascii ''Plum tree - symbol of beauty and perseverance''),
      ([37329], ascii ''Gold - symbol of value and nobility''),
      ([26420], ascii ''Simple wood - symbol of honesty and humility''),
      ([23828], ascii ''High mountain - symbol of greatness''),
      ([37165], ascii ''Upright - symbol of righteousness''),
      ([38867], ascii ''Great nation - symbol of leadership''),
      ([24464], ascii ''Slow and steady - symbol of patience''),
      ([23004], ascii ''Ginger - symbol of strength and vitality'')
     ]"

definition get_surname_meaning :: "ustr \<Rightarrow> ustr" where
  "get_surname_meaning h = dict_get meanings h (ascii ''Noble family lineage'')"

text \<open>
  \<open>generate_name_summary\<close>: the two meanings joined by U+D558 U+ACE0 and a space, closed by
  U+D55C, a space and U+C0AC U+B78C; a fixed sentence for any other number of syllables.
\<close>

definition generate_name_summary :: "syllable_entry list \<Rightarrow> ustr" where
  "generate_name_summary syllables =
     (let ms = map meaning syllables
      in if length ms = 2 then ms ! 0 @ [54616, 44256, 32] @ ms ! 1 @ [54620, 32, 49324, 46988]
         else [54408, 44201, 32, 51080, 44256, 32, 50500, 47492, 45796, 50868, 32, 51060, 47492])"

section \<open>Name generation\<close>

definition WILSON :: ustr where
  "WILSON = ascii ''WILSON''"

text \<open>The default tags, U+BC1D U+C74C and U+C9C0 U+D61C.\<close>

definition default_tags :: "ustr list" where
  "default_tags = [[48157, 51020], [51648, 54812]]"

text \<open>The candidate that is put first for WILSON SMITH.\<close>

definition pinned_candidate :: "surname \<Rightarrow> candidate" where
  "pinned_candidate s =
     \<lparr>name_kr = [49569, 50900, 49440],
      name_en = ascii ''Song Wil-Seon'',
      hanja_forms = [hanja s, [34074], [23459]],
      family_name =
        \<lparr>fam_korean = korean s, fam_hanja = hanja s,
         fam_meaning = ascii ''Pine tree - symbol of longevity and resilience''\<rparr>,
      given_name =
        [\<lparr>g_syllable = [50900], g_hanja = [34074],
          g_meaning = [47924, 49457, 54616, 44256, 32, 50500, 47492, 45796, 50868]\<rparr>,
         \<lparr>g_syllable = [49440], g_hanja = [23459],
          g_meaning = [48288, 54400, 44256, 32, 49440, 54252, 54616, 45716]\<rparr>],
      summary = [47924, 49457, 54620, 32, 50500, 47492, 45796, 50880, 51012, 32, 45328, 47532,
                 32, 48288, 54392, 45716, 32, 49324, 46988]\<rparr>"

text \<open>
  \<open>syllables_by_tag\<close>: a dict from tag (None when an entry has no tag) to the entries
  with that tag, keys in order of first occurrence.
\<close>

type_synonym tag_pool = "(ustr option \<times> syllable_entry list) list"

fun group_by_tag :: "syllable_entry list \<Rightarrow> tag_pool \<Rightarrow> tag_pool" where
  "group_by_tag [] syllables_by_tag = syllables_by_tag"
| "group_by_tag (s # rest) syllables_by_tag =
     (let t = tag s;
          d = (if map_of syllables_by_tag t = None then syllables_by_tag @ [(t, [])]
               else syllables_by_tag)
      in group_by_tag rest (map (\<lambda>(k, v). if k = t then (k, v @ [s]) else (k, v)) d))"

text \<open>The loop over the sampled tags (lines 155 to 164).\<close>

fun pick_by_tags ::
  "tag_pool \<Rightarrow> ustr list \<Rightarrow> syllable_entry list \<Rightarrow> rng \<Rightarrow> error + (syllable_entry list \<times> rng)"
where
  "pick_by_tags syllables_by_tag [] selected_syllables g = Inr (selected_syllables, g)"
| "pick_by_tags syllables_by_tag (t # ts) selected_syllables g =
     (case map_of syllables_by_tag (Some t) of
        None \<Rightarrow> pick_by_tags syllables_by_tag ts selected_syllables g
      | Some syllable_options \<Rightarrow>
          let common_syllables = filter (\<lambda>s. common s = Some 1) syllable_options
          in (case (if common_syllables \<noteq> [] then choice common_syllables g
                    else choice syllable_options g) of
                Inl e \<Rightarrow> Inl e
              | Inr (selected, g') \<Rightarrow>
                  pick_by_tags syllables_by_tag ts (selected_syllables @ [selected]) g'))"

text \<open>The loop \<open>while len(selected_syllables) < 2\<close> (lines 167 to 169).\<close>

function fill_to_two ::
  "tag_pool \<Rightarrow> syllable_entry list \<Rightarrow> rng \<Rightarrow> error + (syllable_entry list \<times> rng)"
where
  "fill_to_two syllables_by_tag selected_syllables g =
     (if length selected_syllables < 2 then
        (case choice (map fst syllables_by_tag) g of
           Inl e \<Rightarrow> Inl e
         | Inr (t, g1) \<Rightarrow>
             (case map_of syllables_by_tag t of
                None \<Rightarrow> Inl KeyError
              | Some entries \<Rightarrow>
                  (case choice entries g1 of
                     Inl e \<Rightarrow> Inl e
                   | Inr (s, g2) \<Rightarrow>
                       fill_to_two syllables_by_tag (selected_syllables @ [s]) g2)))
      else Inr (selected_syllables, g))"
  by pat_completeness auto
termination
  by (relation "measure (\<lambda>(p, sel, g). 2 - length sel)") auto

text \<open>The selection of the syllables of one candidate (lines 152 to 169).\<close>

definition select_syllables ::
  "tag_pool \<Rightarrow> ustr list \<Rightarrow> rng \<Rightarrow> error + (syllable_entry list \<times> rng)"
where
  "select_syllables syllables_by_tag tgs g =
     (case sample tgs (min 2 (length tgs)) g of
        Inl e \<Rightarrow> Inl e
      | Inr (chosen, g1) \<Rightarrow>
          (case pick_by_tags syllables_by_tag chosen [] g1 of
             Inl e \<Rightarrow> Inl e
           | Inr (selected_syllables, g2) \<Rightarrow> fill_to_two syllables_by_tag selected_syllables g2))"

text \<open>The candidate built from the first two selected syllables (lines 172 to 192).\<close>

definition make_candidate :: "surname \<Rightarrow> syllable_entry list \<Rightarrow> candidate" where
  "make_candidate s selected_syllables =
     (let two = take 2 selected_syllables;
          given_name_kr = concat (map syllable two);
          given_name_hanja = map syl_hanja two
      in \<lparr>name_kr = korean s @ given_name_kr,
          name_en = romanize_korean_name (korean s) given_name_kr,
          hanja_forms = [hanja s] @ given_name_hanja,
          family_name =
            \<lparr>fam_korean = korean s, fam_hanja = hanja s,
             fam_meaning = get_surname_meaning (hanja s)\<rparr>,
          given_name =
            map (\<lambda>e. \<lparr>g_syllable = syllable e, g_hanja = syl_hanja e, g_meaning = meaning e\<rparr>) two,
          summary = generate_name_summary two\<rparr>)"

text \<open>The loop \<open>for _ in range(3 - len(candidates))\<close>, by the number of rounds left.\<close>

fun generate_loop ::
  "nat \<Rightarrow> tag_pool \<Rightarrow> ustr list \<Rightarrow> surname \<Rightarrow> candidate list \<Rightarrow> rng
   \<Rightarrow> error + (candidate list \<times> rng)"
where
  "generate_loop 0 syllables_by_tag tgs s candidates g = Inr (candidates, g)"
| "generate_loop (Suc n) syllables_by_tag tgs s candidates g =
     (case select_syllables syllables_by_tag tgs g of
        Inl e \<Rightarrow> Inl e
      | Inr (selected_syllables, g') \<Rightarrow>
          generate_loop n syllables_by_tag tgs s
            (candidates @ [make_candidate s selected_syllables]) g')"

definition generate_korean_names ::
  "env \<Rightarrow> ustr \<Rightarrow> ustr \<Rightarrow> options option \<Rightarrow> rng \<Rightarrow> error + (candidate list \<times> rng)"
where
  "generate_korean_names E first_name last_name opts g =
     (let opts = (case opts of None \<Rightarrow> \<lparr>tags = None, gender = None\<rparr> | Some d \<Rightarrow> d);
          tgs = (case tags opts of Some ts \<Rightarrow> ts | None \<Rightarrow> default_tags);
          gndr = (case gender opts of Some x \<Rightarrow> x | None \<Rightarrow> ascii ''neutral'')
      in case get_korean_surname E last_name g of
           Inl e \<Rightarrow> Inl e
         | Inr (s, g1) \<Rightarrow>
             let candidates =
                   (if upper (unicode_upper E) first_name = WILSON
                       \<and> upper (unicode_upper E) last_name = SMITH
                    then [pinned_candidate s] else []);
                 syllables_by_tag = group_by_tag (SYLLABLES_DATA E) []
             in (case generate_loop (3 - length candidates) syllables_by_tag tgs s candidates g1 of
                   Inl e \<Rightarrow> Inl e
                 | Inr (cs, g2) \<Rightarrow> Inr (take 3 cs, g2)))"

section \<open>Fortunes\<close>

definition cosmic_cookies :: "ustr list" where
  "cosmic_cookies =
     [
      ascii ''A squirrel is burying a nut for its future self. What small, wonderful thing can you do today that 'Future You' will thank you for?'',
      ascii ''The universe is conspiring to bring you exactly what you need. Stay open to unexpected meetings.'',
      ascii ''Your energy today is like a gentle breeze - soft but capable of moving mountains of doubt.'',
      ascii ''Today's plot twist: the thing you've been worrying about will resolve itself in the most unexpected way.'',
      ascii ''The stars suggest you trust your first instinct today. Your intuition is particularly sharp.''
     ]"

definition lucky_snacks :: "ustr list" where
  "lucky_snacks =
     [
      ascii ''Anything with chocolate. Seriously.'',
      ascii ''Something crunchy - it will spark creativity.'',
      ascii ''A warm drink will bring clarity to your thoughts.'',
      ascii ''Fresh fruit will energize your afternoon.'',
      ascii ''Share a snack with someone - double the luck!''
     ]"

text \<open>
  \<open>generate_fortune\<close>; the date defaults to the current one. The draws are made in the
  order of the source: tag, message, cosmic cookie, lucky snack.
\<close>

definition generate_fortune ::
  "env \<Rightarrow> ustr list \<Rightarrow> ustr option \<Rightarrow> rng \<Rightarrow> error + (fortune \<times> rng)"
where
  "generate_fortune E tgs dt g =
     (let dt = (case dt of None \<Rightarrow> today E | Some d \<Rightarrow> d);
          available_tags = filter (\<lambda>t. map_of (FORTUNES_DATA E) t \<noteq> None) tgs;
          available_tags =
            (if available_tags = [] then map fst (FORTUNES_DATA E) else available_tags)
      in case choice available_tags g of
           Inl e \<Rightarrow> Inl e
         | Inr (t, g1) \<Rightarrow>
             (case map_of (FORTUNES_DATA E) t of
                None \<Rightarrow> Inl KeyError
              | Some messages \<Rightarrow>
                  (case choice messages g1 of
                     Inl e \<Rightarrow> Inl e
                   | Inr (dl, g2) \<Rightarrow>
                       (case choice cosmic_cookies g2 of
                          Inl e \<Rightarrow> Inl e
                        | Inr (cc, g3) \<Rightarrow>
                            (case choice lucky_snacks g3 of
                               Inl e \<Rightarrow> Inl e
                             | Inr (ls, g4) \<Rightarrow>
                                 Inr (\<lparr>date = dt, cosmic_cookie = cc, lucky_snack = ls,
                                       deeper_look = dl\<rparr>, g4))))))"

section \<open>The position the specification names\<close>

text \<open>
  The position the specification describes for the weighted walk: the first index whose
  cumulative weight reaches the draw. The cumulative weight at an index is the weights up
  to and including it, accumulated from 0 in list order by the interpreter's addition.
\<close>

definition cumulative_weight :: "(real \<Rightarrow> real \<Rightarrow> real) \<Rightarrow> real list \<Rightarrow> nat \<Rightarrow> real" where
  "cumulative_weight add ws i = foldl add 0 (take (Suc i) ws)"

definition first_reached :: "(real \<Rightarrow> real \<Rightarrow> real) \<Rightarrow> real list \<Rightarrow> real \<Rightarrow> nat option" where
  "first_reached add ws rand = find (\<lambda>i. rand \<le> cumulative_weight add ws i) [0..<length ws]"

section \<open>Example tables\<close>

text \<open>
  Two surname entries (U+AE40 with weight 1, U+AC15 with weight 3) and a small environment.
  Its arithmetic is the exact one, which is the interpreter's on the small ints and the
  dyadic values of \<open>random()\<close> used below.
\<close>

definition kim :: surname where
  "kim = \<lparr>korean = [44608], hanja = [37329], weight = Some 1\<rparr>"

definition kang :: surname where
  "kang = \<lparr>korean = [44053], hanja = [23004], weight = Some 3\<rparr>"

definition env0 :: env where
  "env0 = \<lparr>unicode_upper = (\<lambda>c. [c]),
            num_add = (+), num_sum = sum_list, num_uniform = (\<lambda>a b u. a + (b - a) * u),
            SURNAMES_DATA = [ascii ''K'' \<mapsto> [kim, kang], DEFAULT \<mapsto> [kim, kang]],
            SYLLABLES_DATA = [], FORTUNES_DATA = [], today = []\<rparr>"

text \<open>Two syllable entries (U+C9C0, common, tagged U+C9C0 U+D61C; U+BA85, tagged U+BC1D U+C74C)
  and an environment that holds them with a one-tag fortune table.\<close>

definition syl_ji :: syllable_entry where
  "syl_ji = \<lparr>syllable = [51648], syl_hanja = [26234], meaning = ascii ''wise'',
             tag = Some [51648, 54812], common = Some 1\<rparr>"

definition syl_myung :: syllable_entry where
  "syl_myung = \<lparr>syllable = [47749], syl_hanja = [26126], meaning = ascii ''bright'',
                tag = Some [48157, 51020], common = None\<rparr>"

definition env1 :: env where
  "env1 = env0\<lparr>SYLLABLES_DATA := [syl_ji, syl_myung],
               FORTUNES_DATA := [(ascii ''luck'', [ascii ''A lucky day.'', ascii ''Try again.''])],
               today := ascii ''2024/06/01''\<rparr>"

text \<open>The environment in which every table has loaded as empty.\<close>

definition env_empty :: env where
  "env_empty = \<lparr>unicode_upper = (\<lambda>c. [c]),
                 num_add = (+), num_sum = sum_list, num_uniform = (\<lambda>a b u. a + (b - a) * u),
                 SURNAMES_DATA = Map.empty, SYLLABLES_DATA = [],
                 FORTUNES_DATA = [], today = ascii ''2024/06/01''\<rparr>"

section \<open>Properties\<close>

subsection \<open>The random source\<close>

lemma randbelow_less: "0 < n \<Longrightarrow> fst (randbelow n g) < n"
  by (simp add: randbelow_def split: list.splits)

lemma choice_mem: "choice xs g = Inr (x, g') \<Longrightarrow> x \<in> set xs"
  using randbelow_less [of "length xs" g]
  by (auto simp: choice_def split: if_splits prod.splits)

lemma choice_ok: "xs \<noteq> [] \<Longrightarrow> \<exists>x g'. choice xs g = Inr (x, g')"
  by (simp add: choice_def split: prod.splits)

subsection \<open>Unfolding the example tables\<close>

lemmas eval_defs = get_korean_surname_def env0_def ascii_def upper_def upper_char_def SMITH_def
      DEFAULT_def uniform_def weight_of_def kim_def kang_def choice_def randbelow_def

subsection \<open>Surname resolution\<close>




lemma first_reached_least:
  "first_reached add ws rand = Some i \<longleftrightarrow>
     i < length ws \<and> rand \<le> cumulative_weight add ws i
     \<and> (\<forall>j < i. \<not> rand \<le> cumulative_weight add ws j)"
  by (auto simp: first_reached_def find_Some_iff)

lemma first_reached_none:
  "first_reached add ws rand = None \<longleftrightarrow> (\<forall>i < length ws. \<not> rand \<le> cumulative_weight add ws i)"
  by (auto simp: first_reached_def find_None_iff)




text \<open>
  C3, as the code has it. For an empty last name and a non-empty DEFAULT list, the surname
  is the entry at a drawn position of the list (\<open>random.choice\<close>, every position alike):
  the weights are not read and no real draw is consumed.
\<close>

theorem empty_last_name_uniform_choice:
  assumes "SURNAMES_DATA E DEFAULT = Some xs" and "xs \<noteq> []"
  shows "get_korean_surname E [] g
           = Inr (xs ! fst (randbelow (length xs) g), snd (randbelow (length xs) g))
         \<and> fst (randbelow (length xs) g) < length xs
         \<and> reals (snd (randbelow (length xs) g)) = reals g"
  using assms randbelow_less [of "length xs" g]
  by (simp add: get_korean_surname_def choice_def randbelow_def split: prod.splits list.splits)

theorem empty_last_name_uniform_choice_witness:
  "SURNAMES_DATA env0 DEFAULT = Some [kim, kang]
   \<and> [kim, kang] \<noteq> []
   \<and> get_korean_surname env0 [] \<lparr>picks = [1], reals = [1/2]\<rparr>
       = Inr (kang, \<lparr>picks = [], reals = [1/2]\<rparr>)"
proof -
  have a1: "SURNAMES_DATA env0 DEFAULT = Some [kim, kang]"
    by (simp add: eval_defs)
  have a2: "[kim, kang] \<noteq> []"
    by simp
  from empty_last_name_uniform_choice [OF a1 a2, of "\<lparr>picks = [1], reals = [1/2]\<rparr>"]
  have r: "get_korean_surname env0 [] \<lparr>picks = [1], reals = [1/2]\<rparr>
             = Inr (kang, \<lparr>picks = [], reals = [1/2]\<rparr>)"
    by (simp add: randbelow_def)
  from a1 a2 r show ?thesis
    by (intro conjI)
qed

text \<open>
  C3 as stated fails: with DEFAULT holding an entry of weight 1 and one of weight 3, the
  entry of weight 1 comes back for one of the two positions that can be drawn and the
  entry of weight 3 for the other, half of the time each, where their shares of the weight
  are a quarter and three quarters. On one and the same random source the empty last name
  takes an index draw and leaves the real draws alone, where the weighted walk over the same
  list (reached through the initial K) takes a real draw and returns the other entry.
\<close>

theorem empty_last_name_ignores_weights:
  "get_korean_surname env0 [] \<lparr>picks = [0], reals = []\<rparr> = Inr (kim, \<lparr>picks = [], reals = []\<rparr>)
   \<and> get_korean_surname env0 [] \<lparr>picks = [1], reals = []\<rparr> = Inr (kang, \<lparr>picks = [], reals = []\<rparr>)
   \<and> weight_of kim / sum_list (map weight_of [kim, kang]) = 1 / 4
   \<and> weight_of kang / sum_list (map weight_of [kim, kang]) = 3 / 4
   \<and> get_korean_surname env0 [] \<lparr>picks = [1], reals = [1/8]\<rparr>
       = Inr (kang, \<lparr>picks = [], reals = [1/8]\<rparr>)
   \<and> get_korean_surname env0 (ascii ''Kim'') \<lparr>picks = [1], reals = [1/8]\<rparr>
       = Inr (kim, \<lparr>picks = [1], reals = []\<rparr>)"
  by (simp add: eval_defs)

text \<open>
  C4. For every non-empty last name whose uppercase form is \<open>SMITH\<close>, the surname is
  the fixed entry (korean U+C1A1, hanja U+5B8B), whatever the tables and the random
  source hold, and no draw is consumed.
\<close>

theorem smith_fixed_entry:
  assumes "last_name \<noteq> []" and "upper (unicode_upper E) last_name = SMITH"
  shows "get_korean_surname E last_name g = Inr (song, g)
         \<and> korean song = [49569] \<and> hanja song = [23435]"
  using assms by (simp add: get_korean_surname_def song_def)

theorem smith_fixed_entry_witness:
  "ascii ''Smith'' \<noteq> []
   \<and> upper (unicode_upper env_empty) (ascii ''Smith'') = SMITH
   \<and> get_korean_surname env_empty (ascii ''Smith'') \<lparr>picks = [4, 1], reals = [1/2]\<rparr>
      = Inr (song, \<lparr>picks = [4, 1], reals = [1/2]\<rparr>)"
proof -
  have ne: "ascii ''Smith'' \<noteq> []"
    by (simp add: ascii_def)
  have up: "upper (unicode_upper env_empty) (ascii ''Smith'') = SMITH"
    by (simp add: upper_def upper_char_def ascii_def SMITH_def)
  have r: "get_korean_surname env_empty (ascii ''Smith'') \<lparr>picks = [4, 1], reals = [1/2]\<rparr>
             = Inr (song, \<lparr>picks = [4, 1], reals = [1/2]\<rparr>)"
    using smith_fixed_entry [OF ne up] by (rule conjunct1)
  show ?thesis
    by (rule conjI [OF ne conjI [OF up r]])
qed

subsection \<open>Syllable selection and the candidate loop\<close>

lemma group_by_tag_inv:
  assumes "\<forall>(k, v) \<in> set d. v \<noteq> [] \<and> set v \<subseteq> S" and "set xs \<subseteq> S"
  shows "\<forall>(k, v) \<in> set (group_by_tag xs d). v \<noteq> [] \<and> set v \<subseteq> S"
  using assms
proof (induction xs arbitrary: d)
  case Nil
  then show ?case by simp
next
  case (Cons s xs)
  let ?t = "tag s"
  let ?d1 = "if map_of d ?t = None then d @ [(?t, [])] else d"
  let ?d2 = "map (\<lambda>(k, v). if k = ?t then (k, v @ [s]) else (k, v)) ?d1"
  have "\<forall>(k, v) \<in> set ?d2. v \<noteq> [] \<and> set v \<subseteq> S"
    using Cons.prems by (fastforce split: if_splits)
  moreover have "set xs \<subseteq> S"
    using Cons.prems by simp
  ultimately have "\<forall>(k, v) \<in> set (group_by_tag xs ?d2). v \<noteq> [] \<and> set v \<subseteq> S"
    by (rule Cons.IH)
  then show ?case
    by (simp add: Let_def)
qed

lemma group_by_tag_length: "length d \<le> length (group_by_tag xs d)"
proof (induction xs arbitrary: d)
  case Nil
  then show ?case by simp
next
  case (Cons s xs)
  let ?t = "tag s"
  let ?d1 = "if map_of d ?t = None then d @ [(?t, [])] else d"
  let ?d2 = "map (\<lambda>(k, v). if k = ?t then (k, v @ [s]) else (k, v)) ?d1"
  have "length d \<le> length ?d2" by simp
  also have "\<dots> \<le> length (group_by_tag xs ?d2)" by (rule Cons.IH)
  finally show ?case by (simp add: Let_def)
qed

lemma group_by_tag_nonempty: "xs \<noteq> [] \<Longrightarrow> group_by_tag xs [] \<noteq> []"
proof (cases xs)
  case Nil
  then show "xs \<noteq> [] \<Longrightarrow> ?thesis" by simp
next
  case (Cons s rest)
  have "length [(tag s, [s])] \<le> length (group_by_tag rest [(tag s, [s])])"
    by (rule group_by_tag_length)
  then show ?thesis
    using Cons by (auto simp: Let_def)
qed


lemma sample_from_length: "length (fst (sample_from pool k g)) = k"
proof (induction k arbitrary: pool g)
  case 0
  then show ?case by simp
next
  case (Suc k)
  obtain i g' where rb: "randbelow (length pool) g = (i, g')"
    by (cases "randbelow (length pool) g")
  obtain xs g'' where sf: "sample_from (take i pool @ drop (Suc i) pool) k g' = (xs, g'')"
    by (cases "sample_from (take i pool @ drop (Suc i) pool) k g'")
  have "length xs = k"
    using Suc.IH [of "take i pool @ drop (Suc i) pool" g'] sf by simp
  then show ?case
    using rb sf by simp
qed


lemma pick_by_tags_length:
  "pick_by_tags p ts sel g = Inr (sel', g') \<Longrightarrow>
     length sel \<le> length sel' \<and> length sel' \<le> length sel + length ts"
proof (induction ts arbitrary: sel g)
  case Nil
  then show ?case by simp
next
  case (Cons t ts)
  then show ?case
    by (fastforce simp: Let_def split: option.splits sum.splits if_splits)
qed


lemma pick_by_tags_ok:
  assumes "\<forall>(k, v) \<in> set p. v \<noteq> [] \<and> set v \<subseteq> S"
  shows "\<exists>sel' g'. pick_by_tags p ts sel g = Inr (sel', g') \<and> set sel' \<subseteq> set sel \<union> S"
proof (induction ts arbitrary: sel g)
  case Nil
  then show ?case by simp
next
  case (Cons t ts)
  show ?case
  proof (cases "map_of p (Some t)")
    case None
    then show ?thesis
      using Cons.IH [of sel g] by simp
  next
    case (Some opts)
    then have "(Some t, opts) \<in> set p"
      by (rule map_of_SomeD)
    with assms have opts: "opts \<noteq> []" "set opts \<subseteq> S"
      by auto
    let ?common = "filter (\<lambda>s. common s = Some 1) opts"
    let ?c = "if ?common \<noteq> [] then choice ?common g else choice opts g"
    obtain x g1 where c: "?c = Inr (x, g1)"
      using choice_ok [of ?common g] choice_ok [OF opts(1), of g] by (cases "?common = []") auto
    then have "x \<in> set opts"
      using choice_mem [of ?common g x g1] choice_mem [of opts g x g1]
      by (auto split: if_splits)
    with opts have x: "x \<in> S" by auto
    obtain sel' g' where r: "pick_by_tags p ts (sel @ [x]) g1 = Inr (sel', g')"
      and sub: "set sel' \<subseteq> set (sel @ [x]) \<union> S"
      using Cons.IH [of "sel @ [x]" g1] by blast
    have "pick_by_tags p (t # ts) sel g = Inr (sel', g')"
      using Some c r by (simp add: Let_def)
    moreover have "set sel' \<subseteq> set sel \<union> S"
      using sub x by auto
    ultimately show ?thesis by blast
  qed
qed

lemma fill_to_two_length:
  "fill_to_two p sel g = Inr (sel', g') \<Longrightarrow> length sel' = max 2 (length sel)"
proof (induction p sel g rule: fill_to_two.induct)
  case (1 p sel g)
  show ?case
  proof (cases "length sel < 2")
    case False
    with "1.prems" show ?thesis by simp
  next
    case True
    from True "1.prems" obtain t g1 entries s g2 where
      c1: "choice (map fst p) g = Inr (t, g1)" and
      m: "map_of p t = Some entries" and
      c2: "choice entries g1 = Inr (s, g2)" and
      r: "fill_to_two p (sel @ [s]) g2 = Inr (sel', g')"
      by (subst (asm) fill_to_two.simps) (auto split: sum.splits option.splits)
    from "1.IH" [OF True c1 refl m c2 refl r] True show ?thesis
      by simp
  qed
qed

lemma fill_to_two_ok:
  "\<forall>(k, v) \<in> set p. v \<noteq> [] \<and> set v \<subseteq> S \<Longrightarrow> p \<noteq> [] \<Longrightarrow>
     \<exists>sel' g'. fill_to_two p sel g = Inr (sel', g') \<and> set sel' \<subseteq> set sel \<union> S"
proof (induction p sel g rule: fill_to_two.induct)
  case (1 p sel g)
  show ?case
  proof (cases "length sel < 2")
    case False
    then show ?thesis by simp
  next
    case True
    have wf: "\<forall>(k, v) \<in> set p. v \<noteq> [] \<and> set v \<subseteq> S" and ne: "p \<noteq> []"
      using "1.prems" by auto
    from ne obtain t g1 where c1: "choice (map fst p) g = Inr (t, g1)"
      using choice_ok [of "map fst p" g] by auto
    then have "t \<in> fst ` set p"
      using choice_mem [OF c1] by simp
    then obtain entries where m: "map_of p t = Some entries"
      by (cases "map_of p t") (auto simp: map_of_eq_None_iff)
    then have "(t, entries) \<in> set p"
      by (rule map_of_SomeD)
    with wf have entries: "entries \<noteq> []" "set entries \<subseteq> S"
      by auto
    obtain s g2 where c2: "choice entries g1 = Inr (s, g2)"
      using choice_ok [OF entries(1), of g1] by auto
    then have s: "s \<in> S"
      using choice_mem [OF c2] entries(2) by auto
    obtain sel' g' where r: "fill_to_two p (sel @ [s]) g2 = Inr (sel', g')"
      and sub: "set sel' \<subseteq> set (sel @ [s]) \<union> S"
      using "1.IH" [OF True c1 refl m c2 refl wf ne] by blast
    have "fill_to_two p sel g = Inr (sel', g')"
      using True c1 m c2 r by (subst fill_to_two.simps) simp
    moreover have "set sel' \<subseteq> set sel \<union> S"
      using sub s by auto
    ultimately show ?thesis by blast
  qed
qed

lemma select_syllables_length:
  assumes "select_syllables p tgs g = Inr (sel, g')"
  shows "length sel = 2"
proof -
  from assms obtain chosen g1 sel1 g2 where
    sm: "sample tgs (min 2 (length tgs)) g = Inr (chosen, g1)" and
    pk: "pick_by_tags p chosen [] g1 = Inr (sel1, g2)" and
    fl: "fill_to_two p sel1 g2 = Inr (sel, g')"
    by (auto simp: select_syllables_def split: sum.splits)
  have "length chosen = min 2 (length tgs)"
    using sm sample_from_length [of tgs "min 2 (length tgs)" g]
    by (auto simp: sample_def split: if_splits)
  then have "length sel1 \<le> 2"
    using pick_by_tags_length [OF pk] by simp
  then show ?thesis
    using fill_to_two_length [OF fl] by simp
qed

lemma select_syllables_ok:
  assumes wf: "\<forall>(k, v) \<in> set p. v \<noteq> [] \<and> set v \<subseteq> S" and ne: "p \<noteq> []"
  shows "\<exists>sel g'. select_syllables p tgs g = Inr (sel, g') \<and> length sel = 2 \<and> set sel \<subseteq> S"
proof -
  let ?k = "min 2 (length tgs)"
  obtain chosen g1 where sf: "sample_from tgs ?k g = (chosen, g1)"
    by (cases "sample_from tgs ?k g")
  then have sm: "sample tgs ?k g = Inr (chosen, g1)"
    by (simp add: sample_def)
  obtain sel1 g2 where pk: "pick_by_tags p chosen [] g1 = Inr (sel1, g2)"
    and s1: "set sel1 \<subseteq> set [] \<union> S"
    using pick_by_tags_ok [OF wf, of chosen "[]" g1] by blast
  obtain sel g' where fl: "fill_to_two p sel1 g2 = Inr (sel, g')"
    and s2: "set sel \<subseteq> set sel1 \<union> S"
    using fill_to_two_ok [OF wf ne, of sel1 g2] by blast
  have r: "select_syllables p tgs g = Inr (sel, g')"
    using sm pk fl by (simp add: select_syllables_def)
  moreover have "length sel = 2"
    using select_syllables_length [OF r] .
  moreover have "set sel \<subseteq> S"
    using s1 s2 by auto
  ultimately show ?thesis by blast
qed


lemma make_candidate_shape:
  assumes "length sel = 2"
  shows "length (given_name (make_candidate s sel)) = 2"
    and "length (hanja_forms (make_candidate s sel)) = 3"
    and "hd (hanja_forms (make_candidate s sel)) = hanja s"
  using assms by (simp_all add: make_candidate_def Let_def)

lemma pinned_candidate_shape:
  "length (given_name (pinned_candidate s)) = 2"
  "length (hanja_forms (pinned_candidate s)) = 3"
  "hd (hanja_forms (pinned_candidate s)) = hanja s"
  by (simp_all add: pinned_candidate_def)

lemma generate_loop_result:
  "generate_loop n p tgs s cands g = Inr (cs, g') \<Longrightarrow>
     \<exists>new. cs = cands @ new \<and> length new = n
       \<and> (\<forall>c \<in> set new. \<exists>sel. length sel = 2 \<and> c = make_candidate s sel)"
proof (induction n arbitrary: cands g)
  case 0
  then show ?case by simp
next
  case (Suc n)
  from Suc.prems obtain sel g1 where
    sl: "select_syllables p tgs g = Inr (sel, g1)" and
    r: "generate_loop n p tgs s (cands @ [make_candidate s sel]) g1 = Inr (cs, g')"
    by (auto split: sum.splits)
  from Suc.IH [OF r] obtain new where
    new: "cs = (cands @ [make_candidate s sel]) @ new" "length new = n"
      "\<forall>c \<in> set new. \<exists>sel. length sel = 2 \<and> c = make_candidate s sel"
    by blast
  have "length sel = 2"
    using select_syllables_length [OF sl] .
  then have "\<forall>c \<in> set (make_candidate s sel # new). \<exists>sel. length sel = 2 \<and> c = make_candidate s sel"
    using new(3) by auto
  moreover have "cs = cands @ (make_candidate s sel # new)"
    using new(1) by simp
  moreover have "length (make_candidate s sel # new) = Suc n"
    using new(2) by simp
  ultimately show ?case by blast
qed

lemma generate_loop_ok:
  assumes wf: "\<forall>(k, v) \<in> set p. v \<noteq> [] \<and> set v \<subseteq> S" and ne: "p \<noteq> []"
  shows "\<exists>new g'. generate_loop n p tgs s cands g = Inr (cands @ new, g') \<and> length new = n
           \<and> (\<forall>c \<in> set new. \<exists>sel. length sel = 2 \<and> set sel \<subseteq> S \<and> c = make_candidate s sel)"
proof (induction n arbitrary: cands g)
  case 0
  then show ?case by simp
next
  case (Suc n)
  obtain sel g1 where sl: "select_syllables p tgs g = Inr (sel, g1)"
    and sel: "length sel = 2" "set sel \<subseteq> S"
    using select_syllables_ok [OF wf ne, of tgs g] by blast
  obtain new g' where
    r: "generate_loop n p tgs s (cands @ [make_candidate s sel]) g1
          = Inr ((cands @ [make_candidate s sel]) @ new, g')" and
    new: "length new = n"
      "\<forall>c \<in> set new. \<exists>sel. length sel = 2 \<and> set sel \<subseteq> S \<and> c = make_candidate s sel"
    using Suc.IH [of "cands @ [make_candidate s sel]" g1] by blast
  have "generate_loop (Suc n) p tgs s cands g = Inr (cands @ (make_candidate s sel # new), g')"
    using sl r by simp
  moreover have "length (make_candidate s sel # new) = Suc n"
    using new(1) by simp
  moreover have "\<forall>c \<in> set (make_candidate s sel # new).
                   \<exists>sel. length sel = 2 \<and> set sel \<subseteq> S \<and> c = make_candidate s sel"
    using new(2) sel by auto
  ultimately show ?case by blast
qed

lemma get_korean_surname_smith:
  "last_name \<noteq> [] \<Longrightarrow> upper (unicode_upper E) last_name = SMITH \<Longrightarrow>
     get_korean_surname E last_name g = Inr (song, g)"
  by (simp add: get_korean_surname_def)

lemma upper_ascii_literals:
  "upper uc (ascii ''WILSON'') = WILSON" "upper uc (ascii ''SMITH'') = SMITH"
  by (simp_all add: upper_def upper_char_def ascii_def WILSON_def SMITH_def)

lemma pool_wf:
  "\<forall>(k, v) \<in> set (group_by_tag xs []). v \<noteq> [] \<and> set v \<subseteq> set xs"
  by (rule group_by_tag_inv) simp_all


subsection \<open>Evaluation on the example tables\<close>

lemma fill_to_two_short:
  "length sel < 2 \<Longrightarrow>
     fill_to_two p sel g =
       (case choice (map fst p) g of
          Inl e \<Rightarrow> Inl e
        | Inr (t, g1) \<Rightarrow>
            (case map_of p t of
               None \<Rightarrow> Inl KeyError
             | Some entries \<Rightarrow>
                 (case choice entries g1 of
                    Inl e \<Rightarrow> Inl e
                  | Inr (s, g2) \<Rightarrow> fill_to_two p (sel @ [s]) g2)))"
  by (subst fill_to_two.simps) simp

lemma fill_to_two_done: "\<not> length sel < 2 \<Longrightarrow> fill_to_two p sel g = Inr (sel, g)"
  by (subst fill_to_two.simps) simp

lemma ascii_literals:
  "ascii ''WILSON'' = [87, 73, 76, 83, 79, 78]"
  "ascii ''SMITH'' = [83, 77, 73, 84, 72]"
  "ascii ''DEFAULT'' = [68, 69, 70, 65, 85, 76, 84]"
  "ascii ''Kim'' = [75, 105, 109]"
  "ascii ''Mina'' = [77, 105, 110, 97]"
  "ascii ''nope'' = [110, 111, 112, 101]"
  by (simp_all add: ascii_def)

lemmas eval_names = select_syllables_def sample_def choice_def randbelow_def Let_def
  fill_to_two_short fill_to_two_done numeral_2_eq_2 numeral_3_eq_3 generate_korean_names_def
  get_korean_surname_def upper_def upper_char_def ascii_literals SMITH_def WILSON_def DEFAULT_def
  default_tags_def uniform_def

lemma pool1: "group_by_tag (SYLLABLES_DATA env1) [] =
   [(Some [51648, 54812], [syl_ji]), (Some [48157, 51020], [syl_myung])]"
  by (simp add: env1_def env0_def syl_ji_def syl_myung_def Let_def)

lemma env1_surnames:
  "SURNAMES_DATA env1 [75] = Some [kim, kang]" "weight_of kim = 1" "weight_of kang = 3"
  "num_add env1 = (+)" "num_sum env1 = sum_list" "num_uniform env1 = (\<lambda>a b u. a + (b - a) * u)"
  by (simp_all add: env1_def env0_def ascii_def weight_of_def kim_def kang_def)

subsection \<open>Name generation\<close>

text \<open>
  C1. Whenever \<open>generate_korean_names\<close> returns, it returns exactly 3 candidates, and each
  of them has 2 given-name entries and 3 hanja forms, the first of which is the hanja of
  the surname resolved for the call.
\<close>

theorem generate_three_candidates:
  assumes "generate_korean_names E first_name last_name opts g = Inr (cs, g')"
  shows "length cs = 3
         \<and> (\<exists>s g1. get_korean_surname E last_name g = Inr (s, g1)
              \<and> (\<forall>c \<in> set cs. length (given_name c) = 2 \<and> length (hanja_forms c) = 3
                    \<and> hd (hanja_forms c) = hanja s))"
proof -
  let ?tgs = "case tags (case opts of None \<Rightarrow> \<lparr>tags = None, gender = None\<rparr> | Some d \<Rightarrow> d) of
                Some ts \<Rightarrow> ts | None \<Rightarrow> default_tags"
  let ?p = "group_by_tag (SYLLABLES_DATA E) []"
  from assms obtain s g1 where sn: "get_korean_surname E last_name g = Inr (s, g1)"
    by (auto simp: generate_korean_names_def Let_def split: sum.splits)
  let ?cands = "if upper (unicode_upper E) first_name = WILSON
                    \<and> upper (unicode_upper E) last_name = SMITH
                then [pinned_candidate s] else []"
  from assms sn obtain cs0 where
    lp: "generate_loop (3 - length ?cands) ?p ?tgs s ?cands g1 = Inr (cs0, g')" and
    cs: "cs = take 3 cs0"
    by (auto simp: generate_korean_names_def Let_def split: sum.splits)
  from generate_loop_result [OF lp] obtain new where
    new: "cs0 = ?cands @ new" "length new = 3 - length ?cands"
      "\<forall>c \<in> set new. \<exists>sel. length sel = 2 \<and> c = make_candidate s sel"
    by blast
  have len: "length cs0 = 3"
    using new(1,2) by (auto split: if_splits)
  have shape: "\<forall>c \<in> set cs0. length (given_name c) = 2 \<and> length (hanja_forms c) = 3
                 \<and> hd (hanja_forms c) = hanja s"
  proof
    fix c assume "c \<in> set cs0"
    then consider "c = pinned_candidate s" | sel where "length sel = 2" "c = make_candidate s sel"
      using new(1,3) by (auto split: if_splits)
    then show "length (given_name c) = 2 \<and> length (hanja_forms c) = 3
                 \<and> hd (hanja_forms c) = hanja s"
      by cases (simp_all add: pinned_candidate_shape make_candidate_shape)
  qed
  from len cs have "cs = cs0" by simp
  with len shape sn show ?thesis by blast
qed

theorem generate_three_candidates_witness:
  "generate_korean_names env1 (ascii ''Mina'') (ascii ''Kim'') None
       \<lparr>picks = [1, 0, 0, 0], reals = [1/2]\<rparr>
     = Inr ([make_candidate kang [syl_ji, syl_myung], make_candidate kang [syl_myung, syl_ji],
             make_candidate kang [syl_myung, syl_ji]], \<lparr>picks = [], reals = []\<rparr>)
   \<and> (length [make_candidate kang [syl_ji, syl_myung], make_candidate kang [syl_myung, syl_ji],
               make_candidate kang [syl_myung, syl_ji]] = 3
        \<and> (\<exists>s g1. get_korean_surname env1 (ascii ''Kim'')
                      \<lparr>picks = [1, 0, 0, 0], reals = [1/2]\<rparr> = Inr (s, g1)
               \<and> (\<forall>c \<in> set [make_candidate kang [syl_ji, syl_myung],
                               make_candidate kang [syl_myung, syl_ji],
                               make_candidate kang [syl_myung, syl_ji]].
                     length (given_name c) = 2 \<and> length (hanja_forms c) = 3
                     \<and> hd (hanja_forms c) = hanja s)))"
proof -
  have ev: "generate_korean_names env1 (ascii ''Mina'') (ascii ''Kim'') None
       \<lparr>picks = [1, 0, 0, 0], reals = [1/2]\<rparr>
     = Inr ([make_candidate kang [syl_ji, syl_myung], make_candidate kang [syl_myung, syl_ji],
             make_candidate kang [syl_myung, syl_ji]], \<lparr>picks = [], reals = []\<rparr>)"
    by (simp add: pool1 env1_surnames eval_names)
  show ?thesis
    by (rule conjI [OF ev generate_three_candidates [OF ev]])
qed

text \<open>
  C5. With a non-empty syllable table, \<open>generate_korean_names("WILSON", "SMITH", {})\<close>
  returns, for every state of the random source, exactly 3 candidates: the fixed candidate
  (name U+C1A1 U+C6D4 U+C120) first, then two candidates built by the general path from two
  syllables of the table each, under the surname fixed for SMITH.
\<close>

theorem wilson_smith_pinned_first:
  assumes "SYLLABLES_DATA E \<noteq> []"
  shows "\<exists>c2 c3 g'.
           generate_korean_names E (ascii ''WILSON'') (ascii ''SMITH'')
               (Some \<lparr>tags = None, gender = None\<rparr>) g
             = Inr ([pinned_candidate song, c2, c3], g')
           \<and> name_kr (pinned_candidate song) = [49569, 50900, 49440]
           \<and> (\<forall>c \<in> {c2, c3}. \<exists>sel. length sel = 2 \<and> set sel \<subseteq> set (SYLLABLES_DATA E)
                  \<and> c = make_candidate song sel)"
proof -
  let ?p = "group_by_tag (SYLLABLES_DATA E) []"
  have ne: "?p \<noteq> []"
    using assms by (rule group_by_tag_nonempty)
  have nonempty: "ascii ''SMITH'' \<noteq> []"
    by (simp add: ascii_def)
  have sn: "get_korean_surname E (ascii ''SMITH'') g = Inr (song, g)"
    using nonempty upper_ascii_literals(2) by (rule get_korean_surname_smith)
  obtain new g' where
    lp: "generate_loop 2 ?p default_tags song [pinned_candidate song] g
           = Inr ([pinned_candidate song] @ new, g')" and
    len: "length new = 2" and
    new: "\<forall>c \<in> set new. \<exists>sel. length sel = 2 \<and> set sel \<subseteq> set (SYLLABLES_DATA E)
             \<and> c = make_candidate song sel"
    using generate_loop_ok [OF pool_wf ne, of 2 default_tags song "[pinned_candidate song]" g]
    by blast
  from len obtain c2 c3 where cs: "new = [c2, c3]"
    by (cases new; cases "tl new") auto
  have "generate_korean_names E (ascii ''WILSON'') (ascii ''SMITH'')
          (Some \<lparr>tags = None, gender = None\<rparr>) g = Inr ([pinned_candidate song, c2, c3], g')"
    using sn lp cs by (simp add: generate_korean_names_def upper_ascii_literals)
  moreover have "name_kr (pinned_candidate song) = [49569, 50900, 49440]"
    by (simp add: pinned_candidate_def)
  ultimately show ?thesis
    using new cs by auto
qed

theorem wilson_smith_pinned_first_witness:
  "SYLLABLES_DATA env1 \<noteq> []
   \<and> generate_korean_names env1 (ascii ''WILSON'') (ascii ''SMITH'')
        (Some \<lparr>tags = None, gender = None\<rparr>) \<lparr>picks = [1, 0, 0, 0], reals = []\<rparr>
      = Inr ([pinned_candidate song, make_candidate song [syl_ji, syl_myung],
              make_candidate song [syl_myung, syl_ji]], \<lparr>picks = [], reals = []\<rparr>)
   \<and> (\<exists>c2 c3 g'.
         generate_korean_names env1 (ascii ''WILSON'') (ascii ''SMITH'')
             (Some \<lparr>tags = None, gender = None\<rparr>) \<lparr>picks = [1, 0, 0, 0], reals = []\<rparr>
           = Inr ([pinned_candidate song, c2, c3], g')
         \<and> name_kr (pinned_candidate song) = [49569, 50900, 49440]
         \<and> (\<forall>c \<in> {c2, c3}. \<exists>sel. length sel = 2 \<and> set sel \<subseteq> set (SYLLABLES_DATA env1)
                \<and> c = make_candidate song sel))"
proof -
  have ne: "SYLLABLES_DATA env1 \<noteq> []"
    by (simp add: env1_def)
  have ev: "generate_korean_names env1 (ascii ''WILSON'') (ascii ''SMITH'')
        (Some \<lparr>tags = None, gender = None\<rparr>) \<lparr>picks = [1, 0, 0, 0], reals = []\<rparr>
      = Inr ([pinned_candidate song, make_candidate song [syl_ji, syl_myung],
              make_candidate song [syl_myung, syl_ji]], \<lparr>picks = [], reals = []\<rparr>)"
    by (simp add: pool1 eval_names)
  show ?thesis
    by (rule conjI [OF ne conjI [OF ev wilson_smith_pinned_first [OF ne]]])
qed



subsection \<open>Romanization and meanings\<close>

lemma join_concat: "join sep (p # ps) = p @ concat (map (\<lambda>q. sep @ q) ps)"
  by (induction ps arbitrary: p) simp_all

text \<open>
  C7. \<open>romanize_korean_name\<close> and \<open>get_surname_meaning\<close> read nothing but their arguments
  (no table of the environment, no random draw), so equal arguments give equal strings.
  For every surname and every given name, the romanized name is the surname's entry in the
  surname table, or the surname itself when it has none, then a space, then one part for
  each character of the given name, in order, each preceded by a hyphen but the first: the
  character's entry in the given-name table, or the character itself when it has none.
  The meaning of a hanja is its entry in the table of meanings, or "Noble family lineage".
\<close>

theorem romanize_and_meaning_pure:
  "(s1 = s2 \<and> n1 = n2 \<longrightarrow> romanize_korean_name s1 n1 = romanize_korean_name s2 n2)
   \<and> (h1 = h2 \<longrightarrow> get_surname_meaning h1 = get_surname_meaning h2)
   \<and> romanize_korean_name s n
       = (case map_of romanization_map s of Some r \<Rightarrow> r | None \<Rightarrow> s) @ ascii '' ''
         @ (case map (\<lambda>c. case map_of given_romanization [c] of Some r \<Rightarrow> r | None \<Rightarrow> [c]) n of
              [] \<Rightarrow> []
            | p # ps \<Rightarrow> p @ concat (map (\<lambda>q. ascii ''-'' @ q) ps))
   \<and> (map_of romanization_map s = None \<and> (\<forall>c \<in> set n. map_of given_romanization [c] = None) \<longrightarrow>
        romanize_korean_name s n = s @ ascii '' '' @ join (ascii ''-'') (map (\<lambda>c. [c]) n))
   \<and> get_surname_meaning h
       = (case map_of meanings h of Some m \<Rightarrow> m | None \<Rightarrow> ascii ''Noble family lineage'')"
proof (intro conjI impI)
  assume "s1 = s2 \<and> n1 = n2"
  then show "romanize_korean_name s1 n1 = romanize_korean_name s2 n2"
    by simp
next
  assume "h1 = h2"
  then show "get_surname_meaning h1 = get_surname_meaning h2"
    by simp
next
  let ?parts = "map (\<lambda>c. case map_of given_romanization [c] of Some r \<Rightarrow> r | None \<Rightarrow> [c]) n"
  have parts: "map (\<lambda>char. dict_get given_romanization [char] [char]) n = ?parts"
    by (simp add: dict_get_def)
  have j: "join (ascii ''-'') ?parts
             = (case ?parts of [] \<Rightarrow> [] | p # ps \<Rightarrow> p @ concat (map (\<lambda>q. ascii ''-'' @ q) ps))"
    by (cases ?parts) (simp_all only: join.simps(1) join_concat list.case)
  have surname: "dict_get romanization_map s s
                   = (case map_of romanization_map s of Some r \<Rightarrow> r | None \<Rightarrow> s)"
    by (simp add: dict_get_def)
  show "romanize_korean_name s n
       = (case map_of romanization_map s of Some r \<Rightarrow> r | None \<Rightarrow> s) @ ascii '' ''
         @ (case ?parts of [] \<Rightarrow> [] | p # ps \<Rightarrow> p @ concat (map (\<lambda>q. ascii ''-'' @ q) ps))"
    unfolding romanize_korean_name_def Let_def parts surname j ..
next
  assume h: "map_of romanization_map s = None \<and> (\<forall>c \<in> set n. map_of given_romanization [c] = None)"
  then have parts: "map (\<lambda>char. dict_get given_romanization [char] [char]) n = map (\<lambda>c. [c]) n"
    by (simp add: dict_get_def)
  have "dict_get romanization_map s s = s"
    using h by (simp add: dict_get_def)
  then show "romanize_korean_name s n = s @ ascii '' '' @ join (ascii ''-'') (map (\<lambda>c. [c]) n)"
    by (simp add: romanize_korean_name_def Let_def parts)
next
  show "get_surname_meaning h
       = (case map_of meanings h of Some m \<Rightarrow> m | None \<Rightarrow> ascii ''Noble family lineage'')"
    by (simp add: get_surname_meaning_def dict_get_def)
qed

theorem romanize_and_meaning_pure_witness:
  "map_of romanization_map [65] = None
   \<and> map_of given_romanization [66] = None
   \<and> map_of given_romanization [67] = None
   \<and> romanize_korean_name [65] [66, 67] = ascii ''A B-C''
   \<and> romanize_korean_name [49569] [65, 66, 67] = ascii ''Song A-B-C''
   \<and> romanize_korean_name [49569] [50900, 65, 49440] = ascii ''Song Wil-A-Seon''
   \<and> romanize_korean_name [49569] [50900, 49440] = ascii ''Song Wil-Seon''
   \<and> romanize_korean_name [49569] [] = ascii ''Song ''
   \<and> get_surname_meaning [23435] = ascii ''Pine tree - symbol of longevity and resilience''
   \<and> get_surname_meaning [65] = ascii ''Noble family lineage''
   \<and> romanize_korean_name [49569] [50900, 49440] = romanize_korean_name [49569] [50900, 49440]
   \<and> get_surname_meaning [23435] = get_surname_meaning [23435]"
proof -
  have absent: "map_of romanization_map [65] = None
                  \<and> (\<forall>c \<in> set [66, 67]. map_of given_romanization [c] = None)"
    by (simp add: romanization_map_def given_romanization_def)
  have a: "map_of romanization_map [65] = None"
    and b: "map_of given_romanization [66] = None"
    and c: "map_of given_romanization [67] = None"
    using absent by simp_all
  have look: "map_of romanization_map [49569] = Some (ascii ''Song'')"
    "map_of given_romanization [50900] = Some (ascii ''Wil'')"
    "map_of given_romanization [49440] = Some (ascii ''Seon'')"
    "map_of given_romanization [65] = None"
    "map_of meanings [23435] = Some (ascii ''Pine tree - symbol of longevity and resilience'')"
    "map_of meanings [65] = None"
    by (simp_all add: romanization_map_def given_romanization_def meanings_def)
  note passthrough = romanize_and_meaning_pure [of "[65]" "[65]" "[66, 67]" "[66, 67]"
      "[23435]" "[23435]" "[65]" "[66, 67]" "[65]"]
  note three = romanize_and_meaning_pure [of "[65]" "[65]" "[66, 67]" "[66, 67]"
      "[23435]" "[23435]" "[49569]" "[65, 66, 67]" "[65]"]
  note mixed = romanize_and_meaning_pure [of "[65]" "[65]" "[66, 67]" "[66, 67]"
      "[23435]" "[23435]" "[49569]" "[50900, 65, 49440]" "[65]"]
  note known = romanize_and_meaning_pure [of "[49569]" "[49569]" "[50900, 49440]" "[50900, 49440]"
      "[23435]" "[23435]" "[49569]" "[50900, 49440]" "[23435]"]
  note none = romanize_and_meaning_pure [of "[65]" "[65]" "[66, 67]" "[66, 67]"
      "[23435]" "[23435]" "[49569]" "[]" "[65]"]
  from passthrough absent have c1: "romanize_korean_name [65] [66, 67] = ascii ''A B-C''"
    by (simp add: ascii_def)
  from three look b c have c2: "romanize_korean_name [49569] [65, 66, 67] = ascii ''Song A-B-C''"
    by (simp add: ascii_def)
  from mixed look have c3: "romanize_korean_name [49569] [50900, 65, 49440] = ascii ''Song Wil-A-Seon''"
    by (simp add: ascii_def)
  from known look have c4: "romanize_korean_name [49569] [50900, 49440] = ascii ''Song Wil-Seon''"
    by (simp add: ascii_def)
  from none look have c5: "romanize_korean_name [49569] [] = ascii ''Song ''"
    by (simp add: ascii_def)
  from known look have c6: "get_surname_meaning [23435]
                              = ascii ''Pine tree - symbol of longevity and resilience''"
    by simp
  from passthrough look have c7: "get_surname_meaning [65] = ascii ''Noble family lineage''"
    by simp
  from known have c8: "romanize_korean_name [49569] [50900, 49440]
                     = romanize_korean_name [49569] [50900, 49440]"
    and c9: "get_surname_meaning [23435] = get_surname_meaning [23435]"
    by blast+
  show ?thesis
    by (rule conjI [OF a conjI [OF b conjI [OF c conjI [OF c1 conjI [OF c2 conjI [OF c3
          conjI [OF c4 conjI [OF c5 conjI [OF c6 conjI [OF c7 conjI [OF c8 c9]]]]]]]]]]])
qed

subsection \<open>Fortunes\<close>

lemma generate_fortune_ok:
  assumes ne: "FORTUNES_DATA E \<noteq> []"
    and lists: "\<forall>(k, ms) \<in> set (FORTUNES_DATA E). ms \<noteq> []"
  shows "\<exists>avail t g1 ms f g'.
           avail = (if filter (\<lambda>t. map_of (FORTUNES_DATA E) t \<noteq> None) tgs = []
                    then map fst (FORTUNES_DATA E)
                    else filter (\<lambda>t. map_of (FORTUNES_DATA E) t \<noteq> None) tgs)
           \<and> choice avail g = Inr (t, g1)
           \<and> map_of (FORTUNES_DATA E) t = Some ms
           \<and> generate_fortune E tgs dt g = Inr (f, g')
           \<and> date f = (case dt of None \<Rightarrow> today E | Some d \<Rightarrow> d)
           \<and> deeper_look f \<in> set ms"
proof -
  let ?F = "FORTUNES_DATA E"
  let ?flt = "filter (\<lambda>t. map_of ?F t \<noteq> None) tgs"
  let ?avail = "if ?flt = [] then map fst ?F else ?flt"
  have avail_ne: "?avail \<noteq> []"
    using ne by simp
  then obtain t g1 where c1: "choice ?avail g = Inr (t, g1)"
    using choice_ok [of ?avail g] by blast
  have "t \<in> set ?avail"
    using choice_mem [OF c1] .
  then have "map_of ?F t \<noteq> None"
    by (auto simp: map_of_eq_None_iff split: if_splits)
  then obtain ms where m: "map_of ?F t = Some ms"
    by auto
  then have "(t, ms) \<in> set ?F"
    by (rule map_of_SomeD)
  with lists have "ms \<noteq> []"
    by auto
  then obtain dl g2 where c2: "choice ms g1 = Inr (dl, g2)"
    using choice_ok [of ms g1] by blast
  have dl: "dl \<in> set ms"
    using choice_mem [OF c2] .
  obtain cc g3 where c3: "choice cosmic_cookies g2 = Inr (cc, g3)"
    using choice_ok [of cosmic_cookies g2] by (auto simp: cosmic_cookies_def)
  obtain ls g4 where c4: "choice lucky_snacks g3 = Inr (ls, g4)"
    using choice_ok [of lucky_snacks g3] by (auto simp: lucky_snacks_def)
  let ?f = "\<lparr>date = (case dt of None \<Rightarrow> today E | Some d \<Rightarrow> d), cosmic_cookie = cc,
             lucky_snack = ls, deeper_look = dl\<rparr>"
  have "generate_fortune E tgs dt g = Inr (?f, g4)"
    unfolding generate_fortune_def Let_def
    by (simp only: c1 m c2 c3 c4 sum.case prod.case option.case)
  with c1 m dl show ?thesis
    by (intro exI [of _ ?avail] exI [of _ t] exI [of _ g1] exI [of _ ms] exI [of _ ?f]
        exI [of _ g4]) simp
qed

lemma filter_absent:
  "\<forall>t \<in> set tgs. map_of F t = None \<Longrightarrow> filter (\<lambda>t. map_of F t \<noteq> None) tgs = []"
  by (induction tgs) auto

text \<open>
  C8, as the code has it. When the fortune table has at least one tag and none of its
  message lists is empty, then for every tag list that is empty or holds only tags absent
  from the table, \<open>generate_fortune\<close> returns: the tag is drawn among all the keys of the
  table, the date is the one supplied, and \<open>deeper_look\<close> is one of that tag's messages.
\<close>

theorem fortune_falls_back_to_all_tags:
  assumes "FORTUNES_DATA E \<noteq> []"
    and "\<forall>(k, ms) \<in> set (FORTUNES_DATA E). ms \<noteq> []"
    and "\<forall>t \<in> set tgs. map_of (FORTUNES_DATA E) t = None"
  shows "\<exists>t g1 ms f g'.
           choice (map fst (FORTUNES_DATA E)) g = Inr (t, g1)
           \<and> map_of (FORTUNES_DATA E) t = Some ms
           \<and> generate_fortune E tgs (Some d) g = Inr (f, g')
           \<and> date f = d
           \<and> deeper_look f \<in> set ms"
  using generate_fortune_ok [OF assms(1,2), of tgs g "Some d"] filter_absent [OF assms(3)]
  by auto

theorem fortune_falls_back_to_all_tags_witness:
  "FORTUNES_DATA env1 = [(ascii ''luck'', [ascii ''A lucky day.'', ascii ''Try again.''])]
   \<and> map_of (FORTUNES_DATA env1) (ascii ''nonexistent_tag'') = None
   \<and> generate_fortune env1 [ascii ''nonexistent_tag''] (Some (ascii ''2024/01/01''))
       \<lparr>picks = [0, 1, 2, 3], reals = []\<rparr>
     = Inr (\<lparr>date = ascii ''2024/01/01'', cosmic_cookie = cosmic_cookies ! 2,
             lucky_snack = lucky_snacks ! 3, deeper_look = ascii ''Try again.''\<rparr>,
            \<lparr>picks = [], reals = []\<rparr>)
   \<and> (\<exists>t g1 ms f g'.
         choice (map fst (FORTUNES_DATA env1)) \<lparr>picks = [0, 1, 2, 3], reals = []\<rparr> = Inr (t, g1)
         \<and> map_of (FORTUNES_DATA env1) t = Some ms
         \<and> generate_fortune env1 [ascii ''nonexistent_tag''] (Some (ascii ''2024/01/01''))
               \<lparr>picks = [0, 1, 2, 3], reals = []\<rparr> = Inr (f, g')
         \<and> date f = ascii ''2024/01/01''
         \<and> deeper_look f \<in> set ms)"
proof -
  have F: "FORTUNES_DATA env1 = [(ascii ''luck'', [ascii ''A lucky day.'', ascii ''Try again.''])]"
    by (simp add: env1_def)
  have a1: "FORTUNES_DATA env1 \<noteq> []"
    by (simp add: F)
  have a2: "\<forall>(k, ms) \<in> set (FORTUNES_DATA env1). ms \<noteq> []"
    by (simp add: F)
  have a3: "\<forall>t \<in> set [ascii ''nonexistent_tag'']. map_of (FORTUNES_DATA env1) t = None"
    by (simp add: F ascii_def)
  have ev: "generate_fortune env1 [ascii ''nonexistent_tag''] (Some (ascii ''2024/01/01''))
       \<lparr>picks = [0, 1, 2, 3], reals = []\<rparr>
     = Inr (\<lparr>date = ascii ''2024/01/01'', cosmic_cookie = cosmic_cookies ! 2,
             lucky_snack = lucky_snacks ! 3, deeper_look = ascii ''Try again.''\<rparr>,
            \<lparr>picks = [], reals = []\<rparr>)"
    using a3 by (simp add: generate_fortune_def F choice_def randbelow_def cosmic_cookies_def
        lucky_snacks_def)
  have a3': "map_of (FORTUNES_DATA env1) (ascii ''nonexistent_tag'') = None"
    using a3 by simp
  show ?thesis
    by (rule conjI [OF F conjI [OF a3'
          conjI [OF ev fortune_falls_back_to_all_tags [OF a1 a2 a3]]]])
qed

text \<open>
  C8 as stated fails: with a fortune table that is empty, or whose only tag has an empty
  message list, \<open>random.choice\<close> is called on an empty list and raises IndexError.
\<close>

theorem fortune_fails_without_messages:
  "generate_fortune (env1\<lparr>FORTUNES_DATA := []\<rparr>) [ascii ''nonexistent_tag'']
       (Some (ascii ''2024/01/01'')) \<lparr>picks = [], reals = []\<rparr> = Inl IndexError
   \<and> generate_fortune (env1\<lparr>FORTUNES_DATA := [(ascii ''luck'', [])]\<rparr>) []
       (Some (ascii ''2024/01/01'')) \<lparr>picks = [], reals = []\<rparr> = Inl IndexError"
  by (simp add: generate_fortune_def choice_def randbelow_def)

subsection \<open>Empty tables\<close>

lemma generate_fortune_empty_table:
  "FORTUNES_DATA E = [] \<Longrightarrow> generate_fortune E tgs dt g = Inl IndexError"
  by (simp add: generate_fortune_def choice_def)

lemma get_korean_surname_no_default:
  "SURNAMES_DATA E DEFAULT = None \<Longrightarrow> get_korean_surname E [] g = Inr (lee, snd (randbelow 1 g))"
  by (simp add: get_korean_surname_def choice_def randbelow_def split: list.splits)

text \<open>
  C9, as the code has it. With an empty surname table, \<open>get_korean_surname\<close> returns the
  built-in entry (U+C774, U+674E) for an empty last name and the fixed entry for a last name
  that uppercases to SMITH. With an empty fortune table, \<open>generate_fortune\<close> raises
  IndexError for every tag list; it returns for every tag list when the table has at least
  one tag and none of its message lists is empty.
\<close>

theorem empty_tables_what_still_works:
  "(SURNAMES_DATA E = Map.empty \<longrightarrow>
      get_korean_surname E [] g = Inr (lee, snd (randbelow 1 g)))
   \<and> (SURNAMES_DATA E = Map.empty \<and> last_name \<noteq> [] \<and> upper (unicode_upper E) last_name = SMITH \<longrightarrow>
      get_korean_surname E last_name g = Inr (song, g))
   \<and> (FORTUNES_DATA E = [] \<longrightarrow> generate_fortune E tgs dt g = Inl IndexError)
   \<and> (FORTUNES_DATA E \<noteq> [] \<and> (\<forall>(k, ms) \<in> set (FORTUNES_DATA E). ms \<noteq> []) \<longrightarrow>
        (\<exists>f g'. generate_fortune E tgs dt g = Inr (f, g')))"
proof (intro conjI impI)
  assume "SURNAMES_DATA E = Map.empty"
  then show "get_korean_surname E [] g = Inr (lee, snd (randbelow 1 g))"
    by (simp add: get_korean_surname_no_default)
next
  assume "SURNAMES_DATA E = Map.empty \<and> last_name \<noteq> [] \<and> upper (unicode_upper E) last_name = SMITH"
  then show "get_korean_surname E last_name g = Inr (song, g)"
    by (simp add: get_korean_surname_smith)
next
  assume "FORTUNES_DATA E = []"
  then show "generate_fortune E tgs dt g = Inl IndexError"
    by (rule generate_fortune_empty_table)
next
  assume "FORTUNES_DATA E \<noteq> [] \<and> (\<forall>(k, ms) \<in> set (FORTUNES_DATA E). ms \<noteq> [])"
  then show "\<exists>f g'. generate_fortune E tgs dt g = Inr (f, g')"
    using generate_fortune_ok [of E tgs g dt] by blast
qed

theorem empty_tables_what_still_works_witness:
  "SURNAMES_DATA env_empty = Map.empty
   \<and> FORTUNES_DATA env_empty = []
   \<and> upper (unicode_upper env_empty) (ascii ''Smith'') = SMITH
   \<and> FORTUNES_DATA env1 = [(ascii ''luck'', [ascii ''A lucky day.'', ascii ''Try again.''])]
   \<and> get_korean_surname env_empty [] \<lparr>picks = [3], reals = []\<rparr>
     = Inr (lee, \<lparr>picks = [], reals = []\<rparr>)
   \<and> get_korean_surname env_empty (ascii ''Smith'') \<lparr>picks = [3], reals = []\<rparr>
     = Inr (song, \<lparr>picks = [3], reals = []\<rparr>)
   \<and> generate_fortune env_empty [] None \<lparr>picks = [3], reals = []\<rparr> = Inl IndexError
   \<and> (\<exists>f g'. generate_fortune env1 [] None \<lparr>picks = [3], reals = []\<rparr> = Inr (f, g'))"
proof -
  let ?g = "\<lparr>picks = [3], reals = []\<rparr>"
  have s: "SURNAMES_DATA env_empty = Map.empty" and f: "FORTUNES_DATA env_empty = []"
    by (simp_all add: env_empty_def)
  have smith: "SURNAMES_DATA env_empty = Map.empty \<and> ascii ''Smith'' \<noteq> []
                 \<and> upper (unicode_upper env_empty) (ascii ''Smith'') = SMITH"
    by (simp add: env_empty_def ascii_def upper_def upper_char_def SMITH_def)
  have f1: "FORTUNES_DATA env1 \<noteq> [] \<and> (\<forall>(k, ms) \<in> set (FORTUNES_DATA env1). ms \<noteq> [])"
    by (simp add: env1_def)
  have rb: "snd (randbelow 1 ?g) = \<lparr>picks = [], reals = []\<rparr>"
    by (simp add: randbelow_def)
  note e = empty_tables_what_still_works [of env_empty ?g "ascii ''Smith''" "[]" None]
  note e1 = empty_tables_what_still_works [of env1 ?g "ascii ''Smith''" "[]" None]
  from e s rb have c1: "get_korean_surname env_empty [] ?g = Inr (lee, \<lparr>picks = [], reals = []\<rparr>)"
    by simp
  from e smith have c2: "get_korean_surname env_empty (ascii ''Smith'') ?g = Inr (song, ?g)"
    by blast
  from e f have c3: "generate_fortune env_empty [] None ?g = Inl IndexError"
    by blast
  from e1 f1 have c4: "\<exists>f g'. generate_fortune env1 [] None ?g = Inr (f, g')"
    by blast
  have up: "upper (unicode_upper env_empty) (ascii ''Smith'') = SMITH"
    using smith by (elim conjE)
  have F: "FORTUNES_DATA env1 = [(ascii ''luck'', [ascii ''A lucky day.'', ascii ''Try again.''])]"
    by (simp add: env1_def)
  show ?thesis
    by (rule conjI [OF s conjI [OF f conjI [OF up conjI [OF F
          conjI [OF c1 conjI [OF c2 conjI [OF c3 c4]]]]]]])
qed

text \<open>
  C9 as stated fails: with an empty fortune table \<open>generate_fortune([])\<close> raises IndexError,
  and with an empty surname table \<open>get_korean_surname("Kim")\<close> raises TypeError, since
  neither the initial nor DEFAULT is a key and the list of candidates is \<open>None\<close>.
\<close>

theorem empty_tables_raise:
  "generate_fortune (env1\<lparr>FORTUNES_DATA := []\<rparr>) [] (Some (ascii ''2024/01/01''))
       \<lparr>picks = [], reals = []\<rparr> = Inl IndexError
   \<and> get_korean_surname (env1\<lparr>SURNAMES_DATA := Map.empty\<rparr>) (ascii ''Kim'')
       \<lparr>picks = [], reals = []\<rparr> = Inl TypeError"
  by (simp add: generate_fortune_def choice_def get_korean_surname_def ascii_literals
      upper_def upper_char_def SMITH_def)

text \<open>
  C10. The \<open>gender\<close> option has no influence: two calls that differ only in it (present
  with any value, or absent), on the same random source, return the same result.
\<close>

theorem gender_has_no_influence:
  "generate_korean_names E first_name last_name (Some (d\<lparr>gender := x\<rparr>)) g
     = generate_korean_names E first_name last_name (Some (d\<lparr>gender := y\<rparr>)) g
   \<and> generate_korean_names E first_name last_name (Some \<lparr>tags = None, gender = x\<rparr>) g
     = generate_korean_names E first_name last_name None g"
proof
  show "generate_korean_names E first_name last_name (Some (d\<lparr>gender := x\<rparr>)) g
          = generate_korean_names E first_name last_name (Some (d\<lparr>gender := y\<rparr>)) g"
    by (simp add: generate_korean_names_def Let_def cong: sum.case_cong prod.case_cong)
next
  show "generate_korean_names E first_name last_name (Some \<lparr>tags = None, gender = x\<rparr>) g
          = generate_korean_names E first_name last_name None g"
    by (simp add: generate_korean_names_def Let_def cong: sum.case_cong prod.case_cong)
qed

end
